theory Spec2Isabelle
  imports Main "HOL-Library.Product_Lexorder"
begin

section \<open>Strings\<close>

text \<open>
  A Python \<open>str\<close> is modelled as a \<^typ>\<open>string\<close>: a list of 8-bit characters, each read
  as the code point of the same number (U+0000 to U+00FF).  The accented letters the
  source mentions all lie in this range.
\<close>

definition code :: "char \<Rightarrow> nat" where
  "code c = of_char c"

definition is_space :: "char \<Rightarrow> bool" where
  \<comment> \<open>\<open>str.isspace\<close> and the class \<open>\s\<close>: TAB..CR, FS..US, SPACE, NEL, NBSP\<close>
  "is_space c = ((9 \<le> code c \<and> code c \<le> 13) \<or> (28 \<le> code c \<and> code c \<le> 32)
                  \<or> code c = 133 \<or> code c = 160)"

definition is_digit :: "char \<Rightarrow> bool" where
  \<comment> \<open>the class \<open>\d\<close>\<close>
  "is_digit c = (48 \<le> code c \<and> code c \<le> 57)"

definition lower_char :: "char \<Rightarrow> char" where
  "lower_char c =
     (if (65 \<le> code c \<and> code c \<le> 90) \<or> (192 \<le> code c \<and> code c \<le> 222 \<and> (code c < 215 \<or> 215 < code c))
      then char_of (code c + 32) else c)"

definition lower :: "string \<Rightarrow> string" where
  "lower s = map lower_char s"

definition strip :: "string \<Rightarrow> string" where
  "strip s = rev (dropWhile is_space (rev (dropWhile is_space s)))"

definition replace1 :: "char \<Rightarrow> char \<Rightarrow> string \<Rightarrow> string" where
  \<comment> \<open>\<open>s.replace(a, b)\<close> for one-character \<open>a\<close> and \<open>b\<close>\<close>
  "replace1 a b s = map (\<lambda>c. if c = a then b else c) s"

section \<open>Regular expressions\<close>

datatype cls = Digit | Space | AZ | AZ_enye | Ch char | Range char char

fun in_cls :: "cls \<Rightarrow> char \<Rightarrow> bool" where
  "in_cls Digit c = is_digit c"
| "in_cls Space c = is_space c"
| "in_cls AZ c = (97 \<le> code c \<and> code c \<le> 122)"
| "in_cls AZ_enye c = ((97 \<le> code c \<and> code c \<le> 122) \<or> c = CHR 0xF1)"
| "in_cls (Ch a) c = (c = a)"
| "in_cls (Range a b) c = (code a \<le> code c \<and> code c \<le> code b)"

datatype rx =
    Eps
  | Sym cls
  | Rep cls nat "nat option"
  | Grp rx
  | Cat rx rx
  | Alt rx rx

text \<open>
  The backtracking matcher of Python's \<open>re\<close>, for the patterns this program uses:
  \<open>rx_match r s g\<close> lists, in the order the matcher tries them, every way \<open>r\<close> matches a
  prefix of \<open>s\<close>, as the rest of the input with the groups captured so far (\<open>g\<close>, then the
  new ones).  A repetition is greedy: the longest run first.
\<close>

fun rx_match :: "rx \<Rightarrow> string \<Rightarrow> string list \<Rightarrow> (string \<times> string list) list" where
  "rx_match Eps s g = [(s, g)]"
| "rx_match (Sym k) s g =
     (case s of [] \<Rightarrow> [] | c # cs \<Rightarrow> if in_cls k c then [(cs, g)] else [])"
| "rx_match (Rep k lo hi) s g =
     (let n = length (takeWhile (in_cls k) s);
          m = (case hi of None \<Rightarrow> n | Some h \<Rightarrow> min h n)
      in map (\<lambda>i. (drop i s, g)) (rev [lo..<Suc m]))"
| "rx_match (Grp r) s g =
     map (\<lambda>(s', g'). (s', g' @ [take (length s - length s') s])) (rx_match r s g)"
| "rx_match (Cat a b) s g =
     concat (map (\<lambda>(s', g'). rx_match b s' g') (rx_match a s g))"
| "rx_match (Alt a b) s g = rx_match a s g @ rx_match b s g"

definition re_match :: "rx \<Rightarrow> string \<Rightarrow> (string \<times> string list) option" where
  \<comment> \<open>\<open>re.match\<close>: the first match at the start of \<open>s\<close>, with what is left of \<open>s\<close>\<close>
  "re_match r s = (case rx_match r s [] of [] \<Rightarrow> None | x # _ \<Rightarrow> Some x)"


fun re_search :: "rx \<Rightarrow> string \<Rightarrow> string list option" where
  "re_search r [] = (case re_match r [] of None \<Rightarrow> None | Some x \<Rightarrow> Some (snd x))"
| "re_search r (c # cs) =
     (case re_match r (c # cs) of None \<Rightarrow> re_search r cs | Some x \<Rightarrow> Some (snd x))"

fun cat :: "rx list \<Rightarrow> rx" where
  "cat [] = Eps"
| "cat (r # rs) = Cat r (cat rs)"

section \<open>Dates\<close>

type_synonym date = "int \<times> int \<times> int"

datatype py_error =
    ValueError string
  | LibError
  | Exception string

definition is_leap :: "int \<Rightarrow> bool" where
  "is_leap y = (y mod 4 = 0 \<and> (0 < y mod 100 \<or> y mod 400 = 0))"

definition days_in_month :: "int \<Rightarrow> int \<Rightarrow> int" where
  "days_in_month y m =
     (if m = 2 then (if is_leap y then 29 else 28)
      else if m = 4 \<or> m = 6 \<or> m = 9 \<or> m = 11 then 30 else 31)"

definition py_date :: "int \<Rightarrow> int \<Rightarrow> int \<Rightarrow> py_error + date" where
  \<comment> \<open>the constructor \<open>date(y, m, d)\<close>, which raises ValueError outside the calendar\<close>
  "py_date y m d =
     (if 1 \<le> y \<and> y \<le> 9999 \<and> 1 \<le> m \<and> m \<le> 12 \<and> 1 \<le> d \<and> d \<le> days_in_month y m
      then Inr (y, m, d) else Inl LibError)"

definition date_max :: date where
  "date_max = (9999, 12, 31)"

definition digit_val :: "char \<Rightarrow> int" where
  "digit_val c = int (code c) - 48"

definition py_int :: "string \<Rightarrow> py_error + int" where
  \<comment> \<open>\<open>int(s)\<close> on decimal digits, blanks around them allowed\<close>
  "py_int s =
     (let t = strip s in
      if t = [] then Inl LibError
      else if list_all is_digit t then Inr (foldl (\<lambda>a c. 10 * a + digit_val c) 0 t)
      else Inl LibError)"

definition MONTHS_items :: "(string \<times> int) list" where
  "MONTHS_items =
    [(''ene'',1), (''enero'',1), (''feb'',2), (''febrero'',2), (''mar'',3), (''marzo'',3),
     (''abr'',4), (''abril'',4), (''may'',5), (''mayo'',5), (''jun'',6), (''junio'',6),
     (''jul'',7), (''julio'',7), (''ago'',8), (''agosto'',8),
     (''sep'',9), (''sept'',9), (''septi'',9), (''septiembre'',9), (''set'',9), (''setiembre'',9),
     (''oct'',10), (''octubre'',10), (''nov'',11), (''noviembre'',11), (''dic'',12), (''diciembre'',12),
     (''jan'',1), (''january'',1), (''february'',2), (''mar'',3), (''march'',3), (''apr'',4), (''april'',4),
     (''may'',5), (''june'',6), (''jun'',6), (''july'',7), (''jul'',7), (''aug'',8), (''august'',8),
     (''september'',9), (''october'',10), (''november'',11), (''dec'',12), (''december'',12)]"

definition MONTHS :: "string \<Rightarrow> int option" where
  \<comment> \<open>a dict literal keeps the last value given for a key\<close>
  "MONTHS = map_of (rev MONTHS_items)"

section \<open>strptime\<close>

fun directive_rx :: "char \<Rightarrow> rx" where
  "directive_rx c =
     (if c = CHR ''Y'' then Grp (cat [Sym Digit, Sym Digit, Sym Digit, Sym Digit])
      else if c = CHR ''m'' then
        Grp (Alt (cat [Sym (Ch CHR ''1''), Sym (Range CHR ''0'' CHR ''2'')])
            (Alt (cat [Sym (Ch CHR ''0''), Sym (Range CHR ''1'' CHR ''9'')])
                 (Sym (Range CHR ''1'' CHR ''9''))))
      else
        Grp (Alt (cat [Sym (Ch CHR ''3''), Sym (Range CHR ''0'' CHR ''1'')])
            (Alt (cat [Sym (Range CHR ''1'' CHR ''2''), Sym Digit])
            (Alt (cat [Sym (Ch CHR ''0''), Sym (Range CHR ''1'' CHR ''9'')])
            (Alt (Sym (Range CHR ''1'' CHR ''9''))
                 (cat [Sym (Ch CHR '' ''), Sym (Range CHR ''1'' CHR ''9'')]))))))"

fun format_rx :: "string \<Rightarrow> rx" where
  "format_rx [] = Eps"
| "format_rx [c] = Sym (Ch c)"
| "format_rx (c # d # cs) =
     (if c = CHR ''%'' then Cat (directive_rx d) (format_rx cs)
      else Cat (Sym (Ch c)) (format_rx (d # cs)))"

fun format_keys :: "string \<Rightarrow> string" where
  "format_keys [] = []"
| "format_keys [c] = []"
| "format_keys (c # d # cs) =
     (if c = CHR ''%'' then d # format_keys cs else format_keys (d # cs))"

definition field :: "char \<Rightarrow> string \<Rightarrow> string list \<Rightarrow> int \<Rightarrow> py_error + int" where
  "field k keys groups dflt =
     (case map_of (zip keys groups) k of None \<Rightarrow> Inr dflt | Some v \<Rightarrow> py_int v)"

definition strptime_date :: "string \<Rightarrow> string \<Rightarrow> py_error + date" where
  "strptime_date s fmt =
     (case re_match (format_rx fmt) s of
        None \<Rightarrow> Inl LibError
      | Some (rest, groups) \<Rightarrow>
          if rest \<noteq> [] then Inl LibError
          else (case field CHR ''Y'' (format_keys fmt) groups 1900 of
                  Inl e \<Rightarrow> Inl e
                | Inr y \<Rightarrow>
               (case field CHR ''m'' (format_keys fmt) groups 1 of
                  Inl e \<Rightarrow> Inl e
                | Inr m \<Rightarrow>
               (case field CHR ''d'' (format_keys fmt) groups 1 of
                  Inl e \<Rightarrow> Inl e
                | Inr d \<Rightarrow> py_date y m d))))"

section \<open>Range bounds: \<open>_parse_input_date\<close>\<close>







definition in_range_day :: "date \<Rightarrow> date option \<Rightarrow> date option \<Rightarrow> bool" where
  "in_range_day d dfrom dto =
     (if (case dfrom of None \<Rightarrow> False | Some f \<Rightarrow> d < f) then False
      else if (case dto of None \<Rightarrow> False | Some t \<Rightarrow> d > t) then False
      else True)"

section \<open>Dates in text: \<open>_parse_human_date_to_dateobj\<close>\<close>

definition norm_txt :: "string \<Rightarrow> string" where
  "norm_txt s =
     replace1 (CHR 0xE7) CHR ''c''
       (replace1 (CHR 0xFA) CHR ''u''
         (replace1 (CHR 0xF3) CHR ''o''
           (replace1 (CHR 0xED) CHR ''i''
             (replace1 (CHR 0xE9) CHR ''e''
               (replace1 (CHR 0xE1) CHR ''a'' (lower (strip s)))))))"

definition rx_de :: rx where
  \<comment> \<open>\<open>(\d{1,2})\s+de\s+([a-z\<ntilde>]+)\s+de\s+(\d{4})\<close>\<close>
  "rx_de = cat [Grp (Rep Digit 1 (Some 2)), Rep Space 1 None,
                Sym (Ch CHR ''d''), Sym (Ch CHR ''e''), Rep Space 1 None,
                Grp (Rep AZ_enye 1 None), Rep Space 1 None,
                Sym (Ch CHR ''d''), Sym (Ch CHR ''e''), Rep Space 1 None,
                Grp (Rep Digit 4 (Some 4))]"

definition rx_dmy :: rx where
  \<comment> \<open>\<open>(\d{1,2})\s+([a-z\<ntilde>]+)\s+(\d{4})\<close>\<close>
  "rx_dmy = cat [Grp (Rep Digit 1 (Some 2)), Rep Space 1 None,
                 Grp (Rep AZ_enye 1 None), Rep Space 1 None,
                 Grp (Rep Digit 4 (Some 4))]"

definition rx_mdy :: rx where
  \<comment> \<open>\<open>([a-z]+)\s+(\d{1,2}),\s*(\d{4})\<close>\<close>
  "rx_mdy = cat [Grp (Rep AZ 1 None), Rep Space 1 None,
                 Grp (Rep Digit 1 (Some 2)), Sym (Ch CHR '',''), Rep Space 0 None,
                 Grp (Rep Digit 4 (Some 4))]"

definition unpack3 :: "string list \<Rightarrow> py_error + string \<times> string \<times> string" where
  \<comment> \<open>\<open>a, b, c = m.groups()\<close>\<close>
  "unpack3 g = (case g of [a, b, c] \<Rightarrow> Inr (a, b, c) | _ \<Rightarrow> Inl LibError)"

definition try_date :: "string \<Rightarrow> int \<Rightarrow> string \<Rightarrow> date option" where
  \<comment> \<open>\<open>try: return date(int(y), mon, int(d))\<close>, \<open>except: return None\<close>\<close>
  "try_date y mon d =
     (case py_int y of
        Inl _ \<Rightarrow> None
      | Inr yi \<Rightarrow>
          (case py_int d of
             Inl _ \<Rightarrow> None
           | Inr di \<Rightarrow> (case py_date yi mon di of Inl _ \<Rightarrow> None | Inr dt \<Rightarrow> Some dt)))"

definition by_month_name :: "string \<Rightarrow> string \<Rightarrow> string \<Rightarrow> date option option" where
  \<comment> \<open>\<open>mon = MONTHS.get(mon)\<close>, then \<open>if mon:\<close> the return; \<open>None\<close> when the
      code goes on to the next pattern\<close>
  "by_month_name d mon y =
     (case MONTHS mon of
        None \<Rightarrow> None
      | Some k \<Rightarrow> if k = 0 then None else Some (try_date y k d))"

fun try_formats :: "string \<Rightarrow> string list \<Rightarrow> date option" where
  "try_formats s [] = None"
| "try_formats s (fmt # fmts) =
     (case strptime_date s fmt of Inr d \<Rightarrow> Some d | Inl _ \<Rightarrow> try_formats s fmts)"

definition stage :: "rx \<Rightarrow> bool \<Rightarrow> string \<Rightarrow> py_error + date option option" where
  \<comment> \<open>one \<open>re.search\<close> block; the flag says that the groups are (month, day, year)\<close>
  "stage r month_first t =
     (case re_search r t of
        None \<Rightarrow> Inr None
      | Some g \<Rightarrow>
          (case unpack3 g of
             Inl e \<Rightarrow> Inl e
           | Inr (a, b, c) \<Rightarrow>
               Inr (if month_first then by_month_name b a c else by_month_name a b c)))"

definition parse_human_date_to_dateobj :: "string \<Rightarrow> py_error + date option" where
  "parse_human_date_to_dateobj text =
     (let t = norm_txt text in
      case stage rx_de False t of
        Inl e \<Rightarrow> Inl e
      | Inr (Some r) \<Rightarrow> Inr r
      | Inr None \<Rightarrow>
     (case stage rx_dmy False t of
        Inl e \<Rightarrow> Inl e
      | Inr (Some r) \<Rightarrow> Inr r
      | Inr None \<Rightarrow>
     (case stage rx_mdy True t of
        Inl e \<Rightarrow> Inl e
      | Inr (Some r) \<Rightarrow> Inr r
      | Inr None \<Rightarrow>
          Inr (try_formats (strip text) [''%Y-%m-%d'', ''%d/%m/%Y'', ''%Y/%m/%d'', ''%d-%m-%Y'']))))"

definition human_date :: "string \<Rightarrow> date option" where
  \<comment> \<open>the value \<open>_parse_human_date_to_dateobj\<close> hands to its callers; the function always
      returns (lemma \<open>parse_human_returns\<close> below), so the second case is never taken\<close>
  "human_date txt = (case parse_human_date_to_dateobj txt of Inr r \<Rightarrow> r | Inl _ \<Rightarrow> None)"

section \<open>The listing and its expansion\<close>

type_synonym item = "string \<times> string"

text \<open>
  The page is outside the program.  Its state is a value of any type \<open>'st\<close>, and the
  helpers that drive it are parameters: each takes the page and gives back the page it
  leaves, with what it observed.  The helpers catch what the browser raises, so each of
  them returns.
\<close>

record 'st listing =
  quick_scroll :: "'st \<Rightarrow> 'st"
  auto_scroll_until_bottom :: "'st \<Rightarrow> 'st"
  click_any_more_button :: "'st \<Rightarrow> bool \<times> 'st"
  collect_invoice_items :: "'st \<Rightarrow> item list \<times> 'st"
  wait_for_timeout :: "'st \<Rightarrow> 'st"

record round =
  clicked :: bool
  seen :: nat
  last_count :: nat

definition grew :: "round \<Rightarrow> bool" where
  "grew r = (last_count r < seen r)"

text \<open>
  The \<open>while rounds < max_rounds\<close> loop of \<open>_expand_all_invoices_all_languages\<close>.  It
  returns the page and, for the properties below, one record per round it ran: whether
  the click happened, the number of entries the round compared, and \<open>last_count\<close> at
  that moment.
\<close>

function expand_rounds ::
  "'st listing \<Rightarrow> nat \<Rightarrow> nat \<Rightarrow> nat \<Rightarrow> 'st \<Rightarrow> round list \<times> 'st" where
  "expand_rounds L max_rounds rounds prev st =
     (if rounds < max_rounds then
        (let st1 = auto_scroll_until_bottom L (quick_scroll L st);
             (was_clicked, st2) = click_any_more_button L st1;
             (items, st3) = collect_invoice_items L st2
         in if \<not> was_clicked then
              (let r = \<lparr>clicked = False, seen = length items, last_count = prev\<rparr>
               in if length items > prev then
                    (let (rs, st') = expand_rounds L max_rounds (Suc rounds) (length items) st3
                     in (r # rs, st'))
                  else ([r], st3))
            else
              (let (items2, st4) = collect_invoice_items L (wait_for_timeout L st3);
                   r = \<lparr>clicked = True, seen = length items2, last_count = prev\<rparr>
               in if length items2 \<le> prev then ([r], st4)
                  else (let (rs, st') = expand_rounds L max_rounds (Suc rounds) (length items2) st4
                        in (r # rs, st'))))
      else ([], st))"
  by pat_completeness auto
termination
  by (relation "measure (\<lambda>(L, max_rounds, rounds, prev, st). max_rounds - rounds)") auto

declare expand_rounds.simps [simp del]

definition expand_all_invoices_all_languages ::
  "'st listing \<Rightarrow> nat \<Rightarrow> 'st \<Rightarrow> round list \<times> 'st" where
  "expand_all_invoices_all_languages L max_rounds st =
     (let (items, st0) = collect_invoice_items L st
      in expand_rounds L max_rounds 0 (length items) st0)"

definition oldest_date_in_items :: "item list \<Rightarrow> date option" where
  "oldest_date_in_items items =
     (let ds = map (\<lambda>(href, txt). human_date txt) items;
          ds' = concat (map (\<lambda>d. case d of None \<Rightarrow> [] | Some x \<Rightarrow> [x]) ds)
      in case ds' of [] \<Rightarrow> None | d # rest \<Rightarrow> Some (fold min rest d))"

text \<open>
  The \<open>while True\<close> loop that \<open>descargar_facturas\<close> runs when \<open>dfrom\<close> is set.  The
  source gives it no bound, so the model is a partial function: \<open>None\<close> means that the
  loop never ends.  The last component counts the expand-and-collect cycles completed.
\<close>

partial_function (option) expand_from ::
  "'st listing \<Rightarrow> date \<Rightarrow> 'st \<Rightarrow> item list \<Rightarrow> nat \<Rightarrow> (item list \<times> 'st \<times> nat) option" where
  "expand_from L dfrom st all_items n =
     (let od = oldest_date_in_items all_items;
          need_more = (case od of None \<Rightarrow> True | Some d \<Rightarrow> d \<ge> dfrom)
      in if \<not> need_more then Some (all_items, st, n)
         else (case click_any_more_button L st of
                 (was_clicked, st1) \<Rightarrow>
                   if \<not> was_clicked then Some (all_items, st1, n)
                   else (case collect_invoice_items L (quick_scroll L st1) of
                           (items', st2) \<Rightarrow> expand_from L dfrom st2 items' (Suc n))))"

declare expand_from.simps [code]

definition stuck_listing :: "unit listing" where
  \<comment> \<open>a page whose "more" control can always be clicked and that shows one undated entry\<close>
  "stuck_listing =
     \<lparr>quick_scroll = (\<lambda>u. u), auto_scroll_until_bottom = (\<lambda>u. u),
      click_any_more_button = (\<lambda>u. (True, u)),
      collect_invoice_items = (\<lambda>u. ([(''https://invoice.stripe.com/i/a'', ''Learn more'')], u)),
      wait_for_timeout = (\<lambda>u. u)\<rparr>"

definition counting_listing :: "nat listing" where
  \<comment> \<open>a page whose "more" control can be clicked as many times as its state says; each
      click reveals one more undated entry\<close>
  "counting_listing =
     \<lparr>quick_scroll = (\<lambda>k. k), auto_scroll_until_bottom = (\<lambda>k. k),
      click_any_more_button = (\<lambda>k. (0 < k, k - 1)),
      collect_invoice_items = (\<lambda>k. (replicate (100 - k) (''https://invoice.stripe.com/i/a'', ''Ver factura''), k)),
      wait_for_timeout = (\<lambda>k. k)\<rparr>"

definition growing_listing :: "nat listing" where
  \<comment> \<open>a page with no "more" control that shows one more entry after every scroll\<close>
  "growing_listing =
     \<lparr>quick_scroll = Suc, auto_scroll_until_bottom = (\<lambda>k. k),
      click_any_more_button = (\<lambda>k. (False, k)),
      collect_invoice_items = (\<lambda>k. (replicate k (''https://invoice.stripe.com/i/a'', ''Ver factura''), k)),
      wait_for_timeout = (\<lambda>k. k)\<rparr>"

section \<open>The work queue\<close>

definition filter_items :: "item list \<Rightarrow> date option \<Rightarrow> date option \<Rightarrow> item list" where
  "filter_items all_items dfrom dto =
     filter (\<lambda>(href, txt). case human_date txt of
                               None \<Rightarrow> True
                             | Some d \<Rightarrow> in_range_day d dfrom dto) all_items"

definition sort_key_item :: "item \<Rightarrow> date" where
  \<comment> \<open>\<open>_sort_key\<close>: \<open>d or date.max\<close>\<close>
  "sort_key_item it = (case human_date (snd it) of None \<Rightarrow> date_max | Some d \<Rightarrow> d)"

definition build_work_queue :: "item list \<Rightarrow> date option \<Rightarrow> date option \<Rightarrow> item list" where
  \<comment> \<open>the filter and the stable \<open>filtered.sort(key=_sort_key)\<close>\<close>
  "build_work_queue all_items dfrom dto = sort_key sort_key_item (filter_items all_items dfrom dto)"

section \<open>Opening and saving one invoice\<close>

fun str_nat :: "nat \<Rightarrow> string" where
  "str_nat n = (if n < 10 then [char_of (48 + n)] else str_nat (n div 10) @ [char_of (48 + n mod 10)])"

declare str_nat.simps [simp del]

definition py_str :: "int \<Rightarrow> string" where
  \<comment> \<open>\<open>str(i)\<close>\<close>
  "py_str i = (if i < 0 then CHR ''-'' # str_nat (nat (- i)) else str_nat (nat i))"

definition zfill2 :: "string \<Rightarrow> string" where
  \<comment> \<open>\<open>s.zfill(2)\<close> for an unsigned \<open>s\<close>\<close>
  "zfill2 s = replicate (2 - length s) CHR ''0'' @ s"

text \<open>
  What the browser does while one invoice is processed: whether opening it raises, the
  text of the page (\<open>None\<close> when \<open>inner_text\<close> raises), today's date, whether the
  \<open>k\<close>-th call of \<open>_try_click_fast\<close> obtains a download, what \<open>save_as\<close> raises
  (\<open>None\<close> when it succeeds), whether moving the temporary file raises, and whether going
  back to the listing raises.
\<close>

record item_run =
  goto_raises :: bool
  body :: "string option"
  today :: date
  click_ok :: "nat \<Rightarrow> bool"
  save_as_error :: "string option"
  replace_raises :: bool
  back_raises :: bool

datatype event = Goto string | TryClick nat | SaveAs string | MoveTmp string | GotoList

record run_state =
  descargadas :: nat
  errores :: "(string \<times> string) list"
  events :: "event list"

definition extract_invoice_date :: "item_run \<Rightarrow> string" where
  "extract_invoice_date r =
     (let b = (case body r of None \<Rightarrow> [] | Some t \<Rightarrow> t);
          d = (case human_date b of None \<Rightarrow> today r | Some x \<Rightarrow> x)
      in case d of (y, m, dd) \<Rightarrow>
           py_str y @ ''_'' @ zfill2 (py_str m) @ ''_'' @ zfill2 (py_str dd))"

fun try_click_each :: "(nat \<Rightarrow> bool) \<Rightarrow> nat list \<Rightarrow> event list \<times> bool" where
  "try_click_each ok [] = ([], False)"
| "try_click_each ok (k # ks) =
     (if ok k then ([TryClick k], True)
      else (let (ev, res) = try_click_each ok ks in (TryClick k # ev, res)))"

definition download_attempts :: "item_run \<Rightarrow> event list \<times> bool" where
  \<comment> \<open>the button by test id (0), then the five texts (1 to 5), then the five selectors
      (6 to 10); the flag says that \<open>download\<close> was set\<close>
  "download_attempts r =
     (let (e1, ok1) = try_click_each (click_ok r) [0];
          (e2, ok2) = (if \<not> ok1 then try_click_each (click_ok r) [1, 2, 3, 4, 5] else ([], ok1));
          (e3, ok3) = (if \<not> ok2 then try_click_each (click_ok r) [6, 7, 8, 9, 10] else ([], ok2))
      in (e1 @ e2 @ e3, ok3))"

definition no_download_msg :: string where
  "no_download_msg = ''No se pudo iniciar la descarga (timeout r'' @ [CHR 0xE1] @ ''pido).''"

definition return_to_list :: "bool \<Rightarrow> item_run \<Rightarrow> run_state \<Rightarrow> py_error + run_state" where
  \<comment> \<open>\<open>if idx < len(filtered): new_page.goto(list_url, ...)\<close>\<close>
  "return_to_list is_last r st =
     (if is_last then Inr st
      else if back_raises r then Inl LibError
      else Inr (st\<lparr>events := events st @ [GotoList]\<rparr>))"

definition save_download :: "string \<Rightarrow> string \<Rightarrow> item_run \<Rightarrow> run_state \<Rightarrow> run_state" where
  \<comment> \<open>the \<open>else\<close> branch of \<open>if not download\<close>\<close>
  "save_download href ruta r st =
     (let st1 =
        (case save_as_error r of
           None \<Rightarrow> st\<lparr>events := events st @ [SaveAs ruta]\<rparr>
         | Some e \<Rightarrow>
             if replace_raises r
             then st\<lparr>events := events st @ [SaveAs ruta, MoveTmp ruta],
                     errores := errores st @ [(href, e)]\<rparr>
             else st\<lparr>events := events st @ [SaveAs ruta, MoveTmp ruta]\<rparr>)
      in st1\<lparr>descargadas := descargadas st1 + 1\<rparr>)"

definition process_item ::
  "date option \<Rightarrow> date option \<Rightarrow> string \<Rightarrow> string \<Rightarrow> bool \<Rightarrow> string \<Rightarrow> item_run \<Rightarrow> run_state
     \<Rightarrow> py_error + run_state" where
  "process_item dfrom dto entrada_slug usuario_slug is_last href r st =
     (if goto_raises r then Inl LibError
      else
        (let st1 = st\<lparr>events := events st @ [Goto href]\<rparr>;
             fecha_texto = extract_invoice_date r
         in case strptime_date fecha_texto ''%Y_%m_%d'' of
              Inl e \<Rightarrow> Inl e
            | Inr d_real \<Rightarrow>
                if \<not> in_range_day d_real dfrom dto then return_to_list is_last r st1
                else
                  (let ruta = fecha_texto @ ''_'' @ entrada_slug @ ''_'' @ usuario_slug @ ''.pdf'';
                       (ev, download) = download_attempts r;
                       st2 = st1\<lparr>events := events st1 @ ev\<rparr>;
                       st3 = (if \<not> download
                              then st2\<lparr>errores := errores st2 @ [(href, no_download_msg)]\<rparr>
                              else save_download href ruta r st2)
                   in return_to_list is_last r st3)))"



definition moved_run :: item_run where
  \<comment> \<open>an invoice of 5 June 2025 whose \<open>save_as\<close> fails and whose temporary file is moved\<close>
  "moved_run =
     \<lparr>goto_raises = False, body = Some ''Factura 5 de junio de 2025'', today = (2025, 11, 4),
      click_ok = (\<lambda>k. k = 2), save_as_error = Some ''Permission denied'', replace_raises = False,
      back_raises = False\<rparr>"

definition lost_run :: item_run where
  \<comment> \<open>the same invoice when moving the temporary file fails too\<close>
  "lost_run = moved_run\<lparr>replace_raises := True\<rparr>"

definition start_state :: run_state where
  "start_state = \<lparr>descargadas = 0, errores = [], events = []\<rparr>"

section \<open>The entry point\<close>





section \<open>Notions used to state the properties\<close>






definition valid_date :: "date \<Rightarrow> bool" where
  "valid_date dt =
     (case dt of (y, m, d) \<Rightarrow>
        1 \<le> y \<and> y \<le> 9999 \<and> 1 \<le> m \<and> m \<le> 12 \<and> 1 \<le> d \<and> d \<le> days_in_month y m)"

fun ngroups :: "rx \<Rightarrow> nat" where
  "ngroups Eps = 0"
| "ngroups (Sym k) = 0"
| "ngroups (Rep k lo hi) = 0"
| "ngroups (Grp r) = Suc (ngroups r)"
| "ngroups (Cat a b) = ngroups a + ngroups b"
| "ngroups (Alt a b) = ngroups a"

fun alt_free :: "rx \<Rightarrow> bool" where
  "alt_free (Alt a b) = False"
| "alt_free (Grp r) = alt_free r"
| "alt_free (Cat a b) = (alt_free a \<and> alt_free b)"
| "alt_free r = True"


section \<open>Characters and numbers\<close>











section \<open>Matching the date patterns\<close>


















section \<open>Properties of \<open>_parse_input_date\<close>\<close>
















section \<open>The expansion towards \<open>dfrom\<close>\<close>


lemma learn_more: "human_date ''Learn more'' = None"
  by code_simp

lemma oldest_stuck: "oldest_date_in_items [(''https://invoice.stripe.com/i/a'', ''Learn more'')] = None"
  by (simp add: oldest_date_in_items_def learn_more)

lemma stuck_fields:
  "click_any_more_button stuck_listing u = (True, u)"
  "collect_invoice_items stuck_listing u = ([(''https://invoice.stripe.com/i/a'', ''Learn more'')], u)"
  by (simp_all add: stuck_listing_def)

lemma stuck_aux:
  assumes "expand_from L dfrom st items n = Some r"
  shows "\<not> (L = stuck_listing \<and> items = [(''https://invoice.stripe.com/i/a'', ''Learn more'')])"
  by (rule expand_from.raw_induct[where P = "\<lambda>L dfrom st items n r. \<not> (L = stuck_listing \<and> items = [(''https://invoice.stripe.com/i/a'', ''Learn more'')])", OF _ assms])
     (auto simp: oldest_stuck stuck_fields split: if_splits prod.splits, blast)



text \<open>
  Claim C1.  With \<open>dfrom\<close> set, on a page whose "more" control can always be clicked and
  whose only entry carries no date, the loop of \<open>descargar_facturas\<close> never returns:
  there is no number of attempts after which it stops.
\<close>

theorem expand_from_never_returns:
  "expand_from stuck_listing (2025, 1, 1) () [(''https://invoice.stripe.com/i/a'', ''Learn more'')] 0
     = None"
  using stuck_aux[of stuck_listing "(2025, 1, 1)" "()"
          "[(''https://invoice.stripe.com/i/a'', ''Learn more'')]" 0]
  by (cases "expand_from stuck_listing (2025, 1, 1) ()
               [(''https://invoice.stripe.com/i/a'', ''Learn more'')] 0") auto


section \<open>Properties of \<open>_parse_human_date_to_dateobj\<close>\<close>

lemma groups_count:
  "alt_free r \<Longrightarrow> (s', g') \<in> set (rx_match r s g) \<Longrightarrow> length g' = length g + ngroups r"
proof (induction r arbitrary: s g s' g')
  case Eps
  then show ?case by simp
next
  case (Sym k)
  then show ?case by (auto split: list.splits if_splits)
next
  case (Rep k lo hi)
  then show ?case by (auto simp: Let_def)
next
  case (Grp r)
  then show ?case by auto
next
  case (Cat a b)
  from Cat.prems obtain s1 g1 where 1: "(s1, g1) \<in> set (rx_match a s g)"
      and 2: "(s', g') \<in> set (rx_match b s1 g1)"
    by auto
  from Cat.IH(1)[OF _ 1] Cat.IH(2)[OF _ 2] Cat.prems(1) show ?case by simp
next
  case (Alt a b)
  then show ?case by simp
qed

lemma re_match_groups:
  assumes "alt_free r" "re_match r t = Some (rest, g)"
  shows "length g = ngroups r"
proof -
  from assms(2) have "(rest, g) \<in> set (rx_match r t [])"
    by (auto simp: re_match_def split: list.splits)
  from groups_count[OF assms(1) this] show ?thesis by simp
qed

lemma re_search_groups:
  "alt_free r \<Longrightarrow> re_search r t = Some g \<Longrightarrow> length g = ngroups r"
proof (induction t)
  case Nil
  then show ?case by (auto split: option.splits dest: re_match_groups)
next
  case (Cons c cs)
  then show ?case by (auto split: option.splits dest: re_match_groups)
qed

lemma unpack3_ok: "length g = 3 \<Longrightarrow> \<exists>a b c. unpack3 g = Inr (a, b, c)"
  by (cases g; simp add: unpack3_def split: list.splits) (auto split: list.splits)

lemma stage_returns:
  assumes "alt_free r" "ngroups r = 3"
  shows "\<exists>x. stage r mf t = Inr x"
proof (cases "re_search r t")
  case None
  then show ?thesis by (simp add: stage_def)
next
  case (Some g)
  with re_search_groups[OF assms(1) Some] assms(2) have "length g = 3" by simp
  from unpack3_ok[OF this] Some show ?thesis by (auto simp: stage_def)
qed

lemma rx_shape:
  "alt_free rx_de" "ngroups rx_de = 3" "alt_free rx_dmy" "ngroups rx_dmy = 3"
  "alt_free rx_mdy" "ngroups rx_mdy = 3"
  by (simp_all add: rx_de_def rx_dmy_def rx_mdy_def)

lemma parse_human_returns: "\<exists>r. parse_human_date_to_dateobj text = Inr r"
proof -
  obtain x1 where 1: "stage rx_de False (norm_txt text) = Inr x1"
    using stage_returns[OF rx_shape(1,2)] by blast
  obtain x2 where 2: "stage rx_dmy False (norm_txt text) = Inr x2"
    using stage_returns[OF rx_shape(3,4)] by blast
  obtain x3 where 3: "stage rx_mdy True (norm_txt text) = Inr x3"
    using stage_returns[OF rx_shape(5,6)] by blast
  show ?thesis
    by (cases x1; cases x2; cases x3) (simp_all add: parse_human_date_to_dateobj_def Let_def 1 2 3)
qed

lemma py_date_valid: "py_date y m d = Inr dt \<Longrightarrow> valid_date dt"
  by (auto simp: py_date_def valid_date_def split: if_splits)

lemma try_date_valid: "try_date y k d = Some dt \<Longrightarrow> valid_date dt"
  by (auto simp: try_date_def split: sum.splits dest: py_date_valid)

lemma strptime_valid: "strptime_date s fmt = Inr dt \<Longrightarrow> valid_date dt"
  by (auto simp: strptime_date_def split: option.splits sum.splits if_splits dest: py_date_valid)

lemma try_formats_valid: "try_formats s fmts = Some dt \<Longrightarrow> valid_date dt"
  by (induction fmts) (auto split: sum.splits dest: strptime_valid)

lemma by_month_name_valid: "by_month_name d mon y = Some (Some dt) \<Longrightarrow> valid_date dt"
  by (auto simp: by_month_name_def split: option.splits if_splits dest: try_date_valid)

lemma stage_valid: "stage r mf t = Inr (Some (Some dt)) \<Longrightarrow> valid_date dt"
  by (auto simp: stage_def split: option.splits sum.splits if_splits dest: by_month_name_valid)

lemma parse_human_valid:
  assumes "parse_human_date_to_dateobj text = Inr (Some dt)"
  shows "valid_date dt"
  using assms
  by (auto simp: parse_human_date_to_dateobj_def Let_def simp del: try_formats.simps
           split: sum.splits option.splits dest: stage_valid try_formats_valid)

lemma human_date_valid: "human_date t = Some dt \<Longrightarrow> valid_date dt"
  by (auto simp: human_date_def split: sum.splits dest: parse_human_valid)

lemma valid_le_max: "valid_date dt \<Longrightarrow> dt \<le> date_max"
  by (cases dt) (auto simp: valid_date_def date_max_def less_eq_prod_def days_in_month_def split: if_splits)

text \<open>
  Claim C10.  For every text \<open>_parse_human_date_to_dateobj\<close> returns: no exception
  leaves it.  What it returns is nothing or a day of the calendar.  A text that fits a
  pattern and names a day the month does not have, as "31 de febrero de 2025", gives
  nothing.
\<close>

theorem parse_human_total:
  "(case parse_human_date_to_dateobj text of
      Inl e \<Rightarrow> False
    | Inr None \<Rightarrow> True
    | Inr (Some dt) \<Rightarrow> valid_date dt) \<and>
   parse_human_date_to_dateobj ''31 de febrero de 2025'' = Inr None"
proof -
  have ex: "parse_human_date_to_dateobj ''31 de febrero de 2025'' = Inr None"
    by code_simp
  show ?thesis
    using parse_human_returns[of "text"] parse_human_valid[of "text"] ex
    by (auto split: sum.splits option.splits)
qed


section \<open>The reveal loop\<close>

lemma expand_rounds_props:
  "expand_rounds L M k prev st = (rs, st') \<Longrightarrow>
     length rs \<le> M - k \<and>
     (\<forall>i < length rs. (Suc i = length rs) = (\<not> grew (rs ! i) \<or> k + Suc i = M)) \<and>
     (\<forall>i < length rs. last_count (rs ! i) = (if i = 0 then prev else seen (rs ! (i - 1))))"
proof (induction "M - k" arbitrary: k prev st rs st')
  case 0
  then show ?case by (simp add: expand_rounds.simps[of L M k])
next
  case (Suc d)
  then have lt: "k < M" by simp
  obtain c st2 where c: "click_any_more_button L (auto_scroll_until_bottom L (quick_scroll L st)) = (c, st2)"
    by (cases "click_any_more_button L (auto_scroll_until_bottom L (quick_scroll L st))")
  obtain items st3 where i: "collect_invoice_items L st2 = (items, st3)"
    by (cases "collect_invoice_items L st2")
  obtain items2 st4 where i2: "collect_invoice_items L (wait_for_timeout L st3) = (items2, st4)"
    by (cases "collect_invoice_items L (wait_for_timeout L st3)")
  let ?n = "if c then length items2 else length items"
  let ?st = "if c then st4 else st3"
  let ?r = "\<lparr>clicked = c, seen = ?n, last_count = prev\<rparr>"
  show ?case
  proof (cases "prev < ?n")
    case False
    then have "rs = [?r]"
      using Suc.prems lt c i i2
      by (auto simp add: expand_rounds.simps[of L M k] split: if_splits)
    then show ?thesis using lt False by (auto simp: grew_def)
  next
    case g: True
    obtain rs1 st1 where rec: "expand_rounds L M (Suc k) ?n ?st = (rs1, st1)"
      by (cases "expand_rounds L M (Suc k) ?n ?st")
    have rs: "rs = ?r # rs1"
      using Suc.prems lt c i i2 g rec
      by (auto simp add: expand_rounds.simps[of L M k] split: if_splits)
    have d: "d = M - Suc k" using Suc.hyps(2) by simp
    note IH = Suc.hyps(1)[OF d rec]
    have gr: "grew ?r" using g by (simp add: grew_def)
    have "length rs1 \<le> M - Suc k" using IH by blast
    then have 1: "length rs \<le> M - k" using lt rs by simp
    have 2: "(Suc i = length rs) = (\<not> grew (rs ! i) \<or> k + Suc i = M)" if "i < length rs" for i
    proof (cases i)
      case 0
      show ?thesis
      proof (cases rs1)
        case Nil
        then have "M - Suc k = 0"
          using rec by (auto simp add: expand_rounds.simps[of L M "Suc k"] Let_def split: if_splits prod.splits)
        then show ?thesis using 0 Nil rs gr lt by auto
      next
        case (Cons a list)
        then have "Suc k < M" using IH by auto
        then show ?thesis using 0 Cons rs gr by auto
      qed
    next
      case (Suc j)
      then have "j < length rs1" using that rs by simp
      with IH have "(Suc j = length rs1) = (\<not> grew (rs1 ! j) \<or> Suc k + Suc j = M)" by blast
      then show ?thesis using Suc rs by simp
    qed
    have 3: "last_count (rs ! i) = (if i = 0 then prev else seen (rs ! (i - 1)))" if "i < length rs" for i
    proof (cases i)
      case 0
      then show ?thesis using rs by simp
    next
      case (Suc j)
      then have j: "j < length rs1" using that rs by simp
      with IH have "last_count (rs1 ! j) = (if j = 0 then ?n else seen (rs1 ! (j - 1)))" by blast
      then show ?thesis using Suc rs by (cases j) auto
    qed
    from 1 2 3 show ?thesis by blast
  qed
qed

lemma expand_rounds_nonempty:
  "k < M \<Longrightarrow> expand_rounds L M k prev st = (rs, st') \<Longrightarrow> rs \<noteq> []"
  by (auto simp add: expand_rounds.simps[of L M k] Let_def split: if_splits prod.splits)

text \<open>
  Claim C5.  \<open>_expand_all_invoices_all_languages\<close> returns for every behaviour of the
  page, after at most \<open>max_rounds\<close> rounds.  A round is the last one exactly when the
  count it compared did not exceed \<open>last_count\<close> (whether or not the click happened: the
  count taken after the wait when it did, the count taken right away when it did not) or
  when it was round number \<open>max_rounds\<close>.  Each round compares with the count the round
  before it saw, the first with the count taken before the loop.
\<close>

theorem expand_all_bounded_plateau:
  assumes "expand_all_invoices_all_languages L max_rounds st = (rs, st')"
  shows "length rs \<le> max_rounds \<and>
         (0 < max_rounds \<longrightarrow> rs \<noteq> []) \<and>
         (\<forall>i < length rs. (Suc i = length rs) = (\<not> grew (rs ! i) \<or> Suc i = max_rounds)) \<and>
         (\<forall>i < length rs. last_count (rs ! i) =
            (if i = 0 then length (fst (collect_invoice_items L st)) else seen (rs ! (i - 1))))"
proof -
  obtain items st0 where c: "collect_invoice_items L st = (items, st0)"
    by (cases "collect_invoice_items L st")
  with assms have r: "expand_rounds L max_rounds 0 (length items) st0 = (rs, st')"
    by (simp add: expand_all_invoices_all_languages_def)
  from expand_rounds_props[OF r] expand_rounds_nonempty[OF _ r] c show ?thesis
    by simp
qed

theorem expand_all_bounded_plateau_witness:
  "expand_all_invoices_all_languages counting_listing 5 3 =
     ([\<lparr>clicked = True, seen = 98, last_count = 97\<rparr>,
       \<lparr>clicked = True, seen = 99, last_count = 98\<rparr>,
       \<lparr>clicked = True, seen = 100, last_count = 99\<rparr>,
       \<lparr>clicked = False, seen = 100, last_count = 100\<rparr>], 0) \<and>
   (4::nat) \<le> 5 \<and>
   length (fst (expand_all_invoices_all_languages growing_listing 3 0)) = 3"
proof -
  have h: "expand_all_invoices_all_languages counting_listing 5 3 =
     ([\<lparr>clicked = True, seen = 98, last_count = 97\<rparr>,
       \<lparr>clicked = True, seen = 99, last_count = 98\<rparr>,
       \<lparr>clicked = True, seen = 100, last_count = 99\<rparr>,
       \<lparr>clicked = False, seen = 100, last_count = 100\<rparr>], 0)"
    by code_simp
  have g: "length (fst (expand_all_invoices_all_languages growing_listing 3 0)) = 3"
    by code_simp
  show ?thesis
    using h g expand_all_bounded_plateau[OF h] by simp
qed

section \<open>The filter and the order of the work queue\<close>

lemma in_range_day_iff:
  "in_range_day d dfrom dto =
     ((case dfrom of None \<Rightarrow> True | Some f \<Rightarrow> f \<le> d) \<and> (case dto of None \<Rightarrow> True | Some t \<Rightarrow> d \<le> t))"
  by (auto simp: in_range_day_def split: option.splits)

lemma queue_member:
  "it \<in> set (build_work_queue items dfrom dto) \<longleftrightarrow>
     it \<in> set items \<and>
     (case human_date (snd it) of
        None \<Rightarrow> True
      | Some d \<Rightarrow> (case dfrom of None \<Rightarrow> True | Some f \<Rightarrow> f \<le> d) \<and>
                  (case dto of None \<Rightarrow> True | Some t \<Rightarrow> d \<le> t))"
  by (cases it) (auto simp: build_work_queue_def filter_items_def in_range_day_iff split: option.splits)

lemma queue_sorted: "sorted (map sort_key_item (build_work_queue items dfrom dto))"
  by (simp add: build_work_queue_def)

lemma queue_stable:
  "filter (\<lambda>it. sort_key_item it = k) (build_work_queue items dfrom dto) =
   filter (\<lambda>it. sort_key_item it = k) (filter_items items dfrom dto)"
  by (simp add: build_work_queue_def sort_key_stable)

lemma key_le_max: "sort_key_item it \<le> date_max"
  by (auto simp: sort_key_item_def split: option.splits dest: human_date_valid valid_le_max)

lemma queue_undated_late:
  assumes "i < j" "j < length (build_work_queue items dfrom dto)"
    "human_date (snd (build_work_queue items dfrom dto ! i)) = None"
  shows "human_date (snd (build_work_queue items dfrom dto ! j)) = None \<or>
         human_date (snd (build_work_queue items dfrom dto ! j)) = Some date_max"
proof -
  let ?q = "build_work_queue items dfrom dto"
  have "sort_key_item (?q ! i) \<le> sort_key_item (?q ! j)"
    using queue_sorted[of items dfrom dto] assms(1,2)
    by (simp add: sorted_iff_nth_mono_less)
  moreover have "sort_key_item (?q ! i) = date_max"
    using assms(3) by (simp add: sort_key_item_def)
  ultimately have "sort_key_item (?q ! j) = date_max"
    using key_le_max[of "?q ! j"] by simp
  then show ?thesis by (auto simp: sort_key_item_def split: option.splits)
qed

text \<open>
  Claim C3, as stated, at an entry dated 31 December 9999: the sort key of an undated
  entry is \<open>date.max\<close>, the same day, and the sort is stable, so the undated entry that
  the listing shows first stays before the dated one.
\<close>

theorem build_work_queue_undated_before_dated:
  "build_work_queue
     [(''https://invoice.stripe.com/i/a'', ''Ver factura''),
      (''https://invoice.stripe.com/i/b'', ''31 dec 9999'')] None None
   = [(''https://invoice.stripe.com/i/a'', ''Ver factura''),
      (''https://invoice.stripe.com/i/b'', ''31 dec 9999'')] \<and>
   human_date ''Ver factura'' = None \<and>
   human_date ''31 dec 9999'' = Some (9999, 12, 31)"
proof -
  have 1: "human_date ''Ver factura'' = None"
    by code_simp
  have 2: "human_date ''31 dec 9999'' = Some (9999, 12, 31)"
    by code_simp
  show ?thesis
    using 1 2
    by (simp add: build_work_queue_def filter_items_def sort_key_item_def date_max_def
                  in_range_day_def)
qed

text \<open>
  Claim C3, amended.  An entry of the listing is in the queue exactly when its text gives
  no date, or gives a date \<open>d\<close> with \<open>from \<le> d \<le> to\<close>, an absent bound not
  constraining.  The queue is in ascending order of the estimated date, an undated entry
  counting as dated 31 December 9999: whatever follows an undated entry is undated or
  dated that very day.  Entries with the same key keep the order of the listing.
\<close>

theorem build_work_queue_filter_and_order:
  "(it \<in> set (build_work_queue items dfrom dto) \<longleftrightarrow>
      it \<in> set items \<and>
      (case human_date (snd it) of
         None \<Rightarrow> True
       | Some d \<Rightarrow> (case dfrom of None \<Rightarrow> True | Some f \<Rightarrow> f \<le> d) \<and>
                   (case dto of None \<Rightarrow> True | Some t \<Rightarrow> d \<le> t))) \<and>
   sorted (map sort_key_item (build_work_queue items dfrom dto)) \<and>
   (i < j \<and> j < length (build_work_queue items dfrom dto) \<and>
    human_date (snd (build_work_queue items dfrom dto ! i)) = None \<longrightarrow>
      human_date (snd (build_work_queue items dfrom dto ! j)) = None \<or>
      human_date (snd (build_work_queue items dfrom dto ! j)) = Some date_max) \<and>
   filter (\<lambda>x. sort_key_item x = k) (build_work_queue items dfrom dto) =
     filter (\<lambda>x. sort_key_item x = k) (filter_items items dfrom dto)"
  using queue_member[of it items dfrom dto] queue_sorted[of items dfrom dto]
    queue_undated_late[of i j items dfrom dto] queue_stable[of k items dfrom dto]
  by blast

theorem build_work_queue_filter_and_order_witness:
  "build_work_queue
     [(''a'', ''Ver factura''), (''b'', ''1 jul 2025''), (''c'', ''5 jun 2025''), (''d'', ''Factura'')]
     (Some (2025, 6, 1)) (Some (2025, 6, 30))
   = [(''c'', ''5 jun 2025''), (''a'', ''Ver factura''), (''d'', ''Factura'')] \<and>
   (1::nat) < 2 \<and> (2::nat) < length [(''c'', ''5 jun 2025''), (''a'', ''Ver factura''), (''d'', ''Factura'')] \<and>
   human_date (snd ([(''c'', ''5 jun 2025''), (''a'', ''Ver factura''), (''d'', ''Factura'')] ! 1)) = None \<and>
   human_date (snd ([(''c'', ''5 jun 2025''), (''a'', ''Ver factura''), (''d'', ''Factura'')] ! 2)) = None"
proof -
  have 1: "human_date ''Ver factura'' = None"
    by code_simp
  have 2: "human_date ''1 jul 2025'' = Some (2025, 7, 1)"
    by code_simp
  have 3: "human_date ''5 jun 2025'' = Some (2025, 6, 5)"
    by code_simp
  have 4: "human_date ''Factura'' = None"
    by code_simp
  have q: "build_work_queue
     [(''a'', ''Ver factura''), (''b'', ''1 jul 2025''), (''c'', ''5 jun 2025''), (''d'', ''Factura'')]
     (Some (2025, 6, 1)) (Some (2025, 6, 30))
   = [(''c'', ''5 jun 2025''), (''a'', ''Ver factura''), (''d'', ''Factura'')]"
    using 1 2 3 4
    by (simp add: build_work_queue_def filter_items_def sort_key_item_def date_max_def
                  in_range_day_def)
  show ?thesis
    using q 1 4
      build_work_queue_filter_and_order[of "(''a'', ''Ver factura'')"
        "[(''a'', ''Ver factura''), (''b'', ''1 jul 2025''), (''c'', ''5 jun 2025''), (''d'', ''Factura'')]"
        "Some (2025, 6, 1)" "Some (2025, 6, 30)" 1 2 date_max]
    by simp
qed

section \<open>Skipping, saving and counting one invoice\<close>

lemma return_to_list_ok:
  assumes "is_last \<or> \<not> back_raises r"
  shows "return_to_list is_last r st =
           Inr (st\<lparr>events := events st @ (if is_last then [] else [GotoList])\<rparr>)"
  using assms by (auto simp: return_to_list_def)


lemma process_item_download:
  assumes "\<not> goto_raises r"
    and "strptime_date (extract_invoice_date r) ''%Y_%m_%d'' = Inr d_real"
    and "in_range_day d_real dfrom dto"
    and "snd (download_attempts r)"
    and "is_last \<or> \<not> back_raises r"
  shows "\<exists>st'. process_item dfrom dto es us is_last href r st = Inr st' \<and>
           descargadas st' = descargadas st + 1 \<and>
           errores st' =
             errores st @ (case save_as_error r of
                             None \<Rightarrow> []
                           | Some e \<Rightarrow> if replace_raises r then [(href, e)] else [])"
  using assms
  by (cases "download_attempts r")
     (auto simp add: process_item_def Let_def return_to_list_ok save_download_def split: option.splits)



text \<open>
  Claim C8.  When a download was obtained, \<open>save_as\<close> fails and moving the temporary
  file succeeds, the item counts as downloaded and no error is recorded for it.
\<close>

theorem moved_download_is_success:
  assumes "\<not> goto_raises r"
    and "strptime_date (extract_invoice_date r) ''%Y_%m_%d'' = Inr d_real"
    and "in_range_day d_real dfrom dto"
    and "snd (download_attempts r)"
    and "save_as_error r = Some e"
    and "\<not> replace_raises r"
    and "is_last \<or> \<not> back_raises r"
  shows "\<exists>st'. process_item dfrom dto es us is_last href r st = Inr st' \<and>
           descargadas st' = descargadas st + 1 \<and> errores st' = errores st"
  using process_item_download[OF assms(1,2,3,4,7), of es us href st] assms(5,6)
  by auto

theorem moved_download_is_success_witness:
  "\<not> goto_raises moved_run \<and>
   strptime_date (extract_invoice_date moved_run) ''%Y_%m_%d'' = Inr (2025, 6, 5) \<and>
   in_range_day (2025, 6, 5) (Some (2025, 6, 1)) (Some (2025, 6, 30)) \<and>
   snd (download_attempts moved_run) \<and>
   save_as_error moved_run = Some ''Permission denied'' \<and>
   \<not> replace_raises moved_run \<and> \<not> back_raises moved_run \<and>
   (\<exists>st'. process_item (Some (2025, 6, 1)) (Some (2025, 6, 30)) ''cursor'' ''usuario'' False
            ''https://invoice.stripe.com/i/a'' moved_run start_state = Inr st' \<and>
          descargadas st' = 1 \<and> errores st' = [])"
proof -
  have h1: "\<not> goto_raises moved_run" by (simp add: moved_run_def)
  have h2: "strptime_date (extract_invoice_date moved_run) ''%Y_%m_%d'' = Inr (2025, 6, 5)"
    by code_simp
  have h3: "in_range_day (2025, 6, 5) (Some (2025, 6, 1)) (Some (2025, 6, 30))"
    by (simp add: in_range_day_def)
  have h4: "snd (download_attempts moved_run)"
    by (simp add: download_attempts_def moved_run_def)
  have h5: "save_as_error moved_run = Some ''Permission denied''" by (simp add: moved_run_def)
  have h6: "\<not> replace_raises moved_run" by (simp add: moved_run_def)
  have h7: "\<not> back_raises moved_run" by (simp add: moved_run_def)
  have h8: "False \<or> \<not> back_raises moved_run" using h7 by simp
  show ?thesis
    using h1 h2 h3 h4 h5 h6 h7
      moved_download_is_success[OF h1 h2 h3 h4 h5 h6 h8, of "''cursor''" "''usuario''"
        "''https://invoice.stripe.com/i/a''" start_state]
    by (simp add: start_state_def)
qed

text \<open>
  Claim C9.  When a download was obtained and both \<open>save_as\<close> and the move of the
  temporary file fail, the item is still counted in \<open>descargadas\<close>, and it is recorded
  in \<open>errores\<close> with the message of the \<open>save_as\<close> failure: the count can exceed the
  number of files saved.
\<close>

theorem lost_download_is_counted:
  assumes "\<not> goto_raises r"
    and "strptime_date (extract_invoice_date r) ''%Y_%m_%d'' = Inr d_real"
    and "in_range_day d_real dfrom dto"
    and "snd (download_attempts r)"
    and "save_as_error r = Some e"
    and "replace_raises r"
    and "is_last \<or> \<not> back_raises r"
  shows "\<exists>st'. process_item dfrom dto es us is_last href r st = Inr st' \<and>
           descargadas st' = descargadas st + 1 \<and> errores st' = errores st @ [(href, e)]"
  using process_item_download[OF assms(1,2,3,4,7), of es us href st] assms(5,6)
  by auto

theorem lost_download_is_counted_witness:
  "\<not> goto_raises lost_run \<and>
   strptime_date (extract_invoice_date lost_run) ''%Y_%m_%d'' = Inr (2025, 6, 5) \<and>
   in_range_day (2025, 6, 5) (Some (2025, 6, 1)) (Some (2025, 6, 30)) \<and>
   snd (download_attempts lost_run) \<and>
   save_as_error lost_run = Some ''Permission denied'' \<and>
   replace_raises lost_run \<and>
   (\<exists>st'. process_item (Some (2025, 6, 1)) (Some (2025, 6, 30)) ''cursor'' ''usuario'' True
            ''https://invoice.stripe.com/i/a'' lost_run start_state = Inr st' \<and>
          descargadas st' = 1 \<and>
          errores st' = [(''https://invoice.stripe.com/i/a'', ''Permission denied'')])"
proof -
  have h1: "\<not> goto_raises lost_run" by (simp add: lost_run_def moved_run_def)
  have h2: "strptime_date (extract_invoice_date lost_run) ''%Y_%m_%d'' = Inr (2025, 6, 5)"
    by code_simp
  have h3: "in_range_day (2025, 6, 5) (Some (2025, 6, 1)) (Some (2025, 6, 30))"
    by (simp add: in_range_day_def)
  have h4: "snd (download_attempts lost_run)"
    by (simp add: download_attempts_def lost_run_def moved_run_def)
  have h5: "save_as_error lost_run = Some ''Permission denied''"
    by (simp add: lost_run_def moved_run_def)
  have h6: "replace_raises lost_run" by (simp add: lost_run_def)
  have h8: "True \<or> \<not> back_raises lost_run" by simp
  show ?thesis
    using h1 h2 h3 h4 h5 h6
      lost_download_is_counted[OF h1 h2 h3 h4 h5 h6 h8, of "''cursor''" "''usuario''"
        "''https://invoice.stripe.com/i/a''" start_state]
    by (simp add: start_state_def)
qed

section \<open>What the caller of \<open>descargar_facturas\<close> receives\<close>








end
